theory Spec2Isabelle
  imports Complex_Main "HOL-Library.Word" "HOL-Library.Sublist"
begin

section \<open>JavaScript strings\<close>

text \<open>
  A JavaScript string is a sequence of UTF-16 code units, so a character is a 16-bit word
  and \<open>length\<close> counts what \<open>String.prototype.length\<close> counts. \<open>lit\<close> writes an ASCII
  literal of the source as such a string.
\<close>

type_synonym jschar = "16 word"
type_synonym jsstring = "jschar list"

definition lit :: "string \<Rightarrow> jsstring" where
  "lit s = map of_char s"

text \<open>
  \<open>WhiteSpace\<close> and \<open>LineTerminator\<close> of ECMAScript: the code units that \<open>trim()\<close> removes
  and that the regular-expression class \<open>\s\<close> matches. The line terminators alone are
  what the regular-expression dot refuses. \<open>\d\<close> matches the ASCII digits only.
\<close>

definition is_line_terminator :: "jschar \<Rightarrow> bool" where
  "is_line_terminator c = (c = 0x000A \<or> c = 0x000D \<or> c = 0x2028 \<or> c = 0x2029)"

definition is_space :: "jschar \<Rightarrow> bool" where
  "is_space c =
     (c = 0x0009 \<or> c = 0x000B \<or> c = 0x000C \<or> c = 0x0020 \<or> c = 0x00A0 \<or> c = 0x1680
      \<or> (0x2000 \<le> c \<and> c \<le> 0x200A) \<or> c = 0x202F \<or> c = 0x205F \<or> c = 0x3000
      \<or> c = 0xFEFF \<or> is_line_terminator c)"

definition is_digit :: "jschar \<Rightarrow> bool" where
  "is_digit c = (0x0030 \<le> c \<and> c \<le> 0x0039)"

definition trim :: "jsstring \<Rightarrow> jsstring" where
  "trim s = rev (dropWhile is_space (rev (dropWhile is_space s)))"

definition startsWith :: "jsstring \<Rightarrow> jsstring \<Rightarrow> bool" where
  \<comment> \<open>\<open>startsWith p s\<close> is the source's \<open>s.startsWith(p)\<close>\<close>
  "startsWith p s = (take (length p) s = p)"

definition endsWith :: "jsstring \<Rightarrow> jsstring \<Rightarrow> bool" where
  \<comment> \<open>\<open>endsWith p s\<close> is the source's \<open>s.endsWith(p)\<close>\<close>
  "endsWith p s = (length p \<le> length s \<and> drop (length s - length p) s = p)"

definition substring :: "nat \<Rightarrow> jsstring \<Rightarrow> jsstring" where
  \<comment> \<open>\<open>s.substring(n)\<close>: a start beyond the end gives the empty string\<close>
  "substring n s = drop n s"

definition slice :: "int \<Rightarrow> int \<Rightarrow> jsstring \<Rightarrow> jsstring" where
  \<comment> \<open>\<open>s.slice(start, end)\<close>: a negative index counts from the end, both are clamped
      to the string, and an end before the start gives the empty string\<close>
  "slice start end s =
     (let len = int (length s);
          from = (if start < 0 then max (len + start) 0 else min start len);
          to = (if end < 0 then max (len + end) 0 else min end len)
      in take (nat (to - from)) (drop (nat from) s))"

fun split_newline :: "jsstring \<Rightarrow> jsstring list" where
  \<comment> \<open>\<open>s.split('\n')\<close>: the empty string splits into one empty line\<close>
  "split_newline [] = [[]]"
| "split_newline (c # cs) =
     (if c = 0x000A then [] # split_newline cs
      else (case split_newline cs of
              [] \<Rightarrow> [[c]]
            | l # ls \<Rightarrow> (c # l) # ls))"

fun join :: "jsstring \<Rightarrow> jsstring list \<Rightarrow> jsstring" where
  \<comment> \<open>\<open>join sep xs\<close> is the source's \<open>xs.join(sep)\<close>\<close>
  "join sep [] = []"
| "join sep [x] = x"
| "join sep (x # y # ys) = x @ sep @ join sep (y # ys)"

section \<open>The history of blueprints\<close>

text \<open>
  The interface \<open>Blueprint\<close> of \<open>types.ts\<close>. The field \<open>id\<close> is named \<open>id_bp\<close> here,
  \<open>id\<close> being the identity function of HOL; \<open>timestamp\<close> holds \<open>Date.now()\<close>, a whole
  number of milliseconds.
\<close>

record Blueprint =
  id_bp :: jsstring
  deviceModel :: jsstring
  content :: jsstring
  timestamp :: int

text \<open>
  The part of the component's state that \<open>saveToHistory\<close> reads and writes: the React
  state \<open>history\<close> and the slot \<open>paknet_history\<close> of the local storage, which holds the
  list that was last serialised into it (\<open>None\<close> while nothing has been stored).
\<close>

record app_state =
  history :: "Blueprint list"
  paknet_history :: "Blueprint list option"

definition saveToHistory :: "Blueprint \<Rightarrow> app_state \<Rightarrow> app_state" where
  "saveToHistory blueprint st =
     (let newHistory =
            blueprint # take 9 (filter (\<lambda>h. deviceModel h \<noteq> deviceModel blueprint) (history st))
      in st\<lparr>history := newHistory, paknet_history := Some newHistory\<rparr>)"

text \<open>Successive additions, each on the state the one before left.\<close>

definition additions :: "app_state \<Rightarrow> Blueprint list \<Rightarrow> app_state" where
  "additions st bs = foldl (\<lambda>s b. saveToHistory b s) st bs"

section \<open>The Markdown renderer\<close>

text \<open>
  What \<open>MarkdownContent\<close> pushes onto \<open>elements\<close>, by the kind of element and what it
  shows; the first argument is the React key, the index of the line that produced the
  element. The styling classes, fixed for each kind, are left out.
  \<^item> \<open>CodeBlock\<close>: the container with key \<open>code-container-i\<close> holding the \<open>pre\<close> element,
    and the text of that element;
  \<^item> \<open>Heading\<close>: \<open>h1\<close>, \<open>h2\<close> or \<open>h3\<close>, with the level and the text;
  \<^item> \<open>ListItem\<close>: \<open>li\<close>, \<open>True\<close> for the class \<open>list-decimal\<close> and \<open>False\<close> for
    \<open>list-disc\<close>, with the text;
  \<^item> \<open>Blank\<close>: the empty \<open>div\<close> of height 4;
  \<^item> \<open>Paragraph\<close>: \<open>p\<close>, with its children.
  A child of a paragraph is a string (\<open>Plain\<close>) or a \<open>strong\<close> element with its key
  and text (\<open>Bold\<close>).
\<close>

datatype span = Plain jsstring | Bold nat jsstring

datatype node =
    CodeBlock nat jsstring
  | Heading nat nat jsstring
  | ListItem nat bool jsstring
  | Blank nat
  | Paragraph nat "span list"

text \<open>The React key of an element.\<close>

fun key :: "node \<Rightarrow> nat" where
  "key (CodeBlock i t) = i"
| "key (Heading i n t) = i"
| "key (ListItem i b t) = i"
| "key (Blank i) = i"
| "key (Paragraph i ss) = i"

text \<open>
  \<open>line.match(/^\d+\./)\<close> finds a match when the line starts with one digit or more
  and then a dot. \<open>line.replace(/^\d+\.\s+/, '')\<close> removes the digits, the dot and all
  the white space after it when at least one white-space character follows the dot, and
  leaves the line as it is otherwise. The greedy \<open>\d+\<close> takes every leading digit, and
  giving one back cannot help, since a digit is not a dot.
\<close>

definition match_ordered :: "jsstring \<Rightarrow> bool" where
  "match_ordered line =
     (takeWhile is_digit line \<noteq> [] \<and> startsWith (lit ''.'') (dropWhile is_digit line))"

definition replace_ordered :: "jsstring \<Rightarrow> jsstring" where
  "replace_ordered line =
     (let rest = dropWhile is_digit line
      in if takeWhile is_digit line \<noteq> [] \<and> startsWith (lit ''.'') rest
            \<and> takeWhile is_space (drop 1 rest) \<noteq> []
         then dropWhile is_space (drop 1 rest)
         else line)"

text \<open>
  The pattern \<open>\*\*.*?\*\*\<close>. After the opening stars, the lazy \<open>.*?\<close> takes as few
  characters as it can, none of them a line terminator, until two stars follow:
  \<open>lazy_until_stars\<close> is the number it takes, \<open>None\<close> when the pattern fails.
  \<open>match_bold_at s\<close> is the length of the match that starts at the first character of
  \<open>s\<close>.
\<close>

fun lazy_until_stars :: "jsstring \<Rightarrow> nat option" where
  "lazy_until_stars [] = None"
| "lazy_until_stars (c # cs) =
     (if startsWith (lit ''**'') (c # cs) then Some 0
      else if is_line_terminator c then None
      else map_option Suc (lazy_until_stars cs))"

definition match_bold_at :: "jsstring \<Rightarrow> nat option" where
  "match_bold_at s =
     (if startsWith (lit ''**'') s
      then map_option (\<lambda>k. k + 4) (lazy_until_stars (drop 2 s))
      else None)"

text \<open>
  \<open>line.split(/(\*\*.*?\*\*)/)\<close>, as ECMAScript splits by a regular expression: the
  pattern is tried at each position from left to right; where it matches, the text
  passed over since the last match is one part, the captured match is the next one, and
  the search goes on behind the match; the text left at the end is the last part.
  \<open>pending\<close> is the text passed over since the last match.
\<close>

function split_bold :: "jsstring \<Rightarrow> jsstring \<Rightarrow> jsstring list" where
  "split_bold pending [] = [pending]"
| "split_bold pending (c # cs) =
     (case match_bold_at (c # cs) of
        None \<Rightarrow> split_bold (pending @ [c]) cs
      | Some n \<Rightarrow> pending # take n (c # cs) # split_bold [] (drop n (c # cs)))"
  by pat_completeness auto
termination
  by (relation "measure (\<lambda>(pending, s). length s)")
     (auto simp: match_bold_at_def split: if_splits)

definition format_part :: "nat \<times> jsstring \<Rightarrow> span" where
  \<comment> \<open>the function mapped over the parts, with the index of the part\<close>
  "format_part = (\<lambda>(idx, part).
     if startsWith (lit ''**'') part \<and> endsWith (lit ''**'') part
     then Bold idx (slice 2 (- 2) part)
     else Plain part)"

definition formattedText :: "jsstring \<Rightarrow> span list" where
  "formattedText line = map format_part (enumerate 0 (split_bold [] line))"

text \<open>The chain of tests on a line outside a code block, in the order of the source.\<close>

definition render_line :: "nat \<Rightarrow> jsstring \<Rightarrow> node" where
  "render_line i line =
     (if startsWith (lit ''# '') line then Heading i 1 (substring 2 line)
      else if startsWith (lit ''## '') line then Heading i 2 (substring 3 line)
      else if startsWith (lit ''### '') line then Heading i 3 (substring 4 line)
      else if startsWith (lit ''- '') line \<or> startsWith (lit ''* '') line
        then ListItem i False (substring 2 line)
      else if match_ordered line then ListItem i True (replace_ordered line)
      else if trim line = [] then Blank i
      else Paragraph i (formattedText line))"

text \<open>
  The variables the loop over the lines updates, and its body. The source's
  \<open>isCodeBlock\<close> is \<open>True\<close> in the state the specification calls InCodeBlock.
\<close>

record render_state =
  elements :: "node list"
  currentCodeBlock :: "jsstring list"
  isCodeBlock :: bool

definition is_fence :: "jsstring \<Rightarrow> bool" where
  "is_fence line = startsWith (lit ''```'') (trim line)"

fun step :: "render_state \<Rightarrow> nat \<times> jsstring \<Rightarrow> render_state" where
  "step st (i, line) =
     (if is_fence line then
        (if isCodeBlock st
         then st\<lparr>elements := elements st @ [CodeBlock i (join (lit ''\<newline>'') (currentCodeBlock st))],
                 currentCodeBlock := [],
                 isCodeBlock := False\<rparr>
         else st\<lparr>isCodeBlock := True\<rparr>)
      else if isCodeBlock st then st\<lparr>currentCodeBlock := currentCodeBlock st @ [line]\<rparr>
      else st\<lparr>elements := elements st @ [render_line i line]\<rparr>)"

definition initial :: render_state where
  "initial = \<lparr>elements = [], currentCodeBlock = [], isCodeBlock = False\<rparr>"

definition run_lines :: "jsstring list \<Rightarrow> render_state" where
  \<comment> \<open>\<open>lines.forEach((line, i) => ...)\<close> from the initial values of the variables\<close>
  "run_lines lines = foldl step initial (enumerate 0 lines)"

definition MarkdownContent :: "jsstring \<Rightarrow> node list" where
  "MarkdownContent content' = elements (run_lines (split_newline content'))"

section \<open>The request builder\<close>

definition SYSTEM_INSTRUCTION :: jsstring where
  "SYSTEM_INSTRUCTION = lit
    (''You are the PakNet AI Orchestrator, an Enterprise-Level AI Network Automation and Deployment Engine.\<newline>'' @
     ''Role: Senior Network Architect, Security Engineer, DevOps Automation Engineer, and Infrastructure Consultant with 20+ years of experience.\<newline>'' @
     ''\<newline>'' @
     ''When a user provides a device name/model, generate a complete professional consultancy report titled '' @ [CHR 0x22] @ ''AI-Generated Enterprise Network Deployment Blueprint'' @ [CHR 0x22] @ ''.\<newline>'' @
     ''\<newline>'' @
     ''The output MUST be in high-quality Markdown and include these sections exactly:\<newline>'' @
     ''1. Device Overview (Capabilities, use cases, ideal deployment)\<newline>'' @
     ''2. Network Architecture Design (Text-based logical topology, physical placement)\<newline>'' @
     ''3. Initial Setup Process (Physical steps, console access, firmware, IP)\<newline>'' @
     ''4. Full Professional Configuration:\<newline>'' @
     ''   - Provide comprehensive, production-ready CLI configuration blocks.\<newline>'' @
     ''   - For VLANs: Include specific VLAN IDs, names, and port assignments.\<newline>'' @
     ''   - For Inter-VLAN Routing: Provide specific SVI (Switch Virtual Interface) or Sub-interface configurations with IP addressing.\<newline>'' @
     ''   - For DHCP: Detail the DHCP pool configuration including ranges, exclusions, DNS servers, and default gateways.\<newline>'' @
     ''   - Also include: DNS, NAT, ACLs, Firewall rules, SSH, SNMP, NTP, Logging, and Backup configurations.\<newline>'' @
     ''5. Security Hardening (Enterprise grade, RBAC, NIST/ISO 27001 alignment)\<newline>'' @
     ''6. AI-Based Optimization Recommendations (Traffic, QoS, Load balancing, redundancy, HA)\<newline>'' @
     ''7. Automation Script Section:\<newline>'' @
     ''   - Provide high-quality, production-ready automation examples.\<newline>'' @
     ''   - Detailed Explanations: Explain the logic, modules used, and intent of each script.\<newline>'' @
     ''   - Ansible Playbook: Include robust error handling using 'block', 'rescue', and 'always' statements. Use best-practice modules (e.g., cisco.ios.ios_config, fortinet.fortios.fortios_configuration).\<newline>'' @
     ''   - Python Netmiko Script: Utilize the 'ConnectHandler' as a context manager. Include comprehensive try-except blocks for 'NetmikoTimeoutException' and 'NetmikoAuthenticationException'. Demonstrate secure credential handling and configuration verification.\<newline>'' @
     ''   - Zero-Touch Deployment (ZTP): Provide a conceptual workflow for automated provisioning at scale.\<newline>'' @
     ''8. Deployment Checklist (Pre & Post)\<newline>'' @
     ''9. Documentation Summary (Client Handover Format)\<newline>'' @
     ''10. Risk Analysis & Mitigation Plan\<newline>'' @
     ''11. Estimated Deployment Cost (Basic vs Enterprise scale in PKR/USD)\<newline>'' @
     ''\<newline>'' @
     ''Context: Pakistan public/private sector environments. \<newline>'' @
     ''Tone: Senior technical, formal, professional consultancy style. \<newline>'' @
     ''Always prioritize automation over manual tasks.\<newline>'' @
     ''Ensure configuration blocks and scripts are tailored specifically to the operating system of the device provided (e.g., Cisco IOS-XE, FortiOS, Junos, RouterOS, etc.).'')"

text \<open>
  The argument of \<open>ai.models.generateContent\<close>. The two sampling parameters are the
  decimal fractions the source writes.
\<close>

record GenerateContentConfig =
  systemInstruction :: jsstring
  temperature :: real
  topP :: real
  thinkingBudget :: int

record GenerateContentParameters =
  model :: jsstring
  contents :: jsstring
  config :: GenerateContentConfig

text \<open>
  The client and the outbound call. \<open>new GoogleGenAI({ apiKey: process.env.API_KEY })\<close>
  stands before the \<open>try\<close> block: it either throws some value, which nothing catches,
  or gives the client. What it does depends on the key in the environment and on the
  library, so its outcome is a parameter of the model: \<open>ConstructorThrows\<close> with the
  value thrown, or \<open>Client\<close> with the endpoint of that client, a function from the
  request to what the call does. The call either throws some value or returns a
  response, whose \<open>text\<close> is a string or undefined (\<open>None\<close>).
\<close>

datatype 'e api_result = Throws 'e | Response "jsstring option"

datatype 'e construction =
    ConstructorThrows 'e
  | Client "GenerateContentParameters \<Rightarrow> 'e api_result"

text \<open>
  How a call of \<open>generateBlueprint\<close> ends in failure: with the \<open>Error\<close> object the
  \<open>catch\<close> block creates, or with the value the constructor threw (\<open>Uncaught\<close>).
\<close>

datatype 'e js_error = Error jsstring | Uncaught 'e

text \<open>
  The world outside the function: the requests that went out to the endpoint, in order,
  and the entries written by \<open>console.error\<close>. \<open>generateContent\<close> is the one operation
  that sends a request, and \<open>console_error_write\<close> the one that writes an entry.
\<close>

record 'e world =
  requests :: "GenerateContentParameters list"
  console_error :: "(jsstring \<times> 'e) list"

definition generateContent ::
  "(GenerateContentParameters \<Rightarrow> 'e api_result) \<Rightarrow> GenerateContentParameters \<Rightarrow> 'e world
     \<Rightarrow> 'e api_result \<times> 'e world" where
  \<comment> \<open>\<open>await ai.models.generateContent(params)\<close> on the client with this endpoint\<close>
  "generateContent endpoint params w = (endpoint params, w\<lparr>requests := requests w @ [params]\<rparr>)"

definition console_error_write :: "jsstring \<Rightarrow> 'e \<Rightarrow> 'e world \<Rightarrow> 'e world" where
  \<comment> \<open>\<open>console.error(label, error)\<close>\<close>
  "console_error_write label error w = w\<lparr>console_error := console_error w @ [(label, error)]\<rparr>"

definition request_for :: "jsstring \<Rightarrow> GenerateContentParameters" where
  \<comment> \<open>the object the source passes to \<open>generateContent\<close>\<close>
  "request_for deviceModel' =
     \<lparr>model = lit ''gemini-3-pro-preview'',
      contents =
        lit ''Generate a comprehensive blueprint for the device: '' @ deviceModel' @
        lit ''. Pay special attention to Section 7, providing highly detailed, error-resilient automation scripts with best-practice Python/Ansible logic.'',
      config =
        \<lparr>systemInstruction = SYSTEM_INSTRUCTION,
         temperature = 7 / 10,
         topP = 95 / 100,
         thinkingBudget = 6000\<rparr>\<rparr>"

definition generateBlueprint ::
  "'e construction \<Rightarrow> jsstring \<Rightarrow> 'e world \<Rightarrow> ('e js_error + jsstring) \<times> 'e world" where
  "generateBlueprint GoogleGenAI deviceModel' w =
     (case GoogleGenAI of
        ConstructorThrows thrown \<Rightarrow> (Inl (Uncaught thrown), w)
      | Client endpoint \<Rightarrow>
          (case generateContent endpoint (request_for deviceModel') w of
             (Response text, w1) \<Rightarrow>
               (Inr (case text of
                       None \<Rightarrow> lit ''Failed to generate blueprint content.''
                     | Some t \<Rightarrow> if t = [] then lit ''Failed to generate blueprint content.'' else t),
                w1)
           | (Throws error, w1) \<Rightarrow>
               (Inl (Error (lit ''Unable to reach PakNet AI services. Please verify your connection.'')),
                console_error_write (lit ''Gemini API Error:'') error w1)))"

section \<open>The history: proofs\<close>

subsection \<open>Facts about one addition\<close>

lemma history_saveToHistory:
  "history (saveToHistory b st) =
     b # take 9 (filter (\<lambda>h. deviceModel h \<noteq> deviceModel b) (history st))"
  by (simp add: saveToHistory_def Let_def)

lemma length_saveToHistory: "length (history (saveToHistory b st)) \<le> 10"
  by (simp add: history_saveToHistory)

lemma others_differ_saveToHistory:
  "e \<in> set (tl (history (saveToHistory b st))) \<Longrightarrow> deviceModel e \<noteq> deviceModel b"
proof -
  assume "e \<in> set (tl (history (saveToHistory b st)))"
  then have "e \<in> set (filter (\<lambda>h. deviceModel h \<noteq> deviceModel b) (history st))"
    by (auto simp: history_saveToHistory dest: in_set_takeD)
  then show ?thesis by simp
qed

lemma distinct_saveToHistory:
  assumes "distinct (map deviceModel (history st))"
  shows "distinct (map deviceModel (history (saveToHistory b st)))"
proof -
  let ?kept = "filter (\<lambda>h. deviceModel h \<noteq> deviceModel b) (history st)"
  have "distinct (map deviceModel ?kept)"
    using assms by (simp add: distinct_map_filter)
  then have "distinct (map deviceModel (take 9 ?kept))"
    by (simp add: take_map [symmetric])
  moreover have "deviceModel b \<notin> set (map deviceModel (take 9 ?kept))"
    by (auto dest: in_set_takeD)
  ultimately show ?thesis
    by (simp add: history_saveToHistory)
qed

lemma additions_snoc: "additions st (bs @ [b]) = saveToHistory b (additions st bs)"
  by (simp add: additions_def)

lemma distinct_additions:
  "distinct (map deviceModel (history st)) \<Longrightarrow>
   distinct (map deviceModel (history (additions st bs)))"
proof (induction bs rule: rev_induct)
  case Nil
  then show ?case by (simp add: additions_def)
next
  case (snoc b bs)
  then show ?case by (simp add: additions_snoc distinct_saveToHistory)
qed

text \<open>
  C1. Adding a record to any history gives a list with the new record at the front, in
  which no other entry has the new record's device model, which has at most ten entries,
  and in which no two entries share a device model when that held of the starting list.
  The same holds of the list left by any number of successive additions, for the record
  added last.
\<close>

theorem saveToHistory_invariant:
  "history (saveToHistory b st) \<noteq> []
   \<and> hd (history (saveToHistory b st)) = b
   \<and> (\<forall>e \<in> set (tl (history (saveToHistory b st))). deviceModel e \<noteq> deviceModel b)
   \<and> length (history (saveToHistory b st)) \<le> 10
   \<and> (distinct (map deviceModel (history st)) \<longrightarrow>
        distinct (map deviceModel (history (saveToHistory b st))))
   \<and> history (additions st (bs @ [b])) \<noteq> []
   \<and> hd (history (additions st (bs @ [b]))) = b
   \<and> (\<forall>e \<in> set (tl (history (additions st (bs @ [b])))). deviceModel e \<noteq> deviceModel b)
   \<and> length (history (additions st (bs @ [b]))) \<le> 10
   \<and> (distinct (map deviceModel (history st)) \<longrightarrow>
        distinct (map deviceModel (history (additions st (bs @ [b])))))"
proof -
  have one: "history (saveToHistory b s) \<noteq> [] \<and> hd (history (saveToHistory b s)) = b" for s
    by (simp add: history_saveToHistory)
  have dist: "distinct (map deviceModel (history st)) \<longrightarrow>
        distinct (map deviceModel (history (additions st (bs @ [b]))))"
    using distinct_additions by blast
  show ?thesis
    using one [of st] one [of "additions st bs"] dist
    by (simp only: additions_snoc)
       (blast intro: length_saveToHistory distinct_saveToHistory dest: others_differ_saveToHistory)
qed

theorem saveToHistory_invariant_witness:
  "(let old = \<lparr>id_bp = lit ''1'', deviceModel = lit ''Cisco 2960'', content = lit ''# A'', timestamp = 1\<rparr>;
        other = \<lparr>id_bp = lit ''2'', deviceModel = lit ''FortiGate 60F'', content = lit ''# B'', timestamp = 2\<rparr>;
        b = \<lparr>id_bp = lit ''3'', deviceModel = lit ''Cisco 2960'', content = lit ''# C'', timestamp = 3\<rparr>;
        st = \<lparr>history = [old, other], paknet_history = None\<rparr>
    in distinct (map deviceModel (history st))
       \<and> history (saveToHistory b st) = [b, other]
       \<and> (\<forall>e \<in> set (tl (history (saveToHistory b st))). deviceModel e \<noteq> deviceModel b)
       \<and> distinct (map deviceModel (history (saveToHistory b st)))
       \<and> (\<forall>e \<in> set (tl (history (additions st ([other] @ [b])))). deviceModel e \<noteq> deviceModel b)
       \<and> distinct (map deviceModel (history (additions st ([other] @ [b])))))"
  using saveToHistory_invariant
    [of "\<lparr>id_bp = lit ''3'', deviceModel = lit ''Cisco 2960'', content = lit ''# C'', timestamp = 3\<rparr>"
        "\<lparr>history = [\<lparr>id_bp = lit ''1'', deviceModel = lit ''Cisco 2960'', content = lit ''# A'', timestamp = 1\<rparr>,
                     \<lparr>id_bp = lit ''2'', deviceModel = lit ''FortiGate 60F'', content = lit ''# B'', timestamp = 2\<rparr>],
          paknet_history = None\<rparr>"
        "[\<lparr>id_bp = lit ''2'', deviceModel = lit ''FortiGate 60F'', content = lit ''# B'', timestamp = 2\<rparr>]"]
  by (simp add: Let_def history_saveToHistory lit_def)

section \<open>The request builder: proofs\<close>

lemma requests_generateContent:
  "requests (snd (generateContent endpoint params w)) = requests w @ [params]"
  by (simp add: generateContent_def)

lemma requests_console_error_write:
  "requests (console_error_write label error w) = requests w"
  by (simp add: console_error_write_def)

lemma requests_generateBlueprint_Client:
  "requests (snd (generateBlueprint (Client endpoint) dm w)) = requests w @ [request_for dm]"
  by (simp add: generateBlueprint_def generateContent_def requests_console_error_write
      split: api_result.split)

lemma generateBlueprint_ConstructorThrows:
  "generateBlueprint (ConstructorThrows thrown) dm w = (Inl (Uncaught thrown), w)"
  by (simp add: generateBlueprint_def)

lemma sublist_contents_request_for: "sublist dm (contents (request_for dm))"
proof -
  have "contents (request_for dm) =
      lit ''Generate a comprehensive blueprint for the device: '' @ dm @
      lit ''. Pay special attention to Section 7, providing highly detailed, error-resilient automation scripts with best-practice Python/Ansible logic.''"
    by (simp add: request_for_def)
  then show ?thesis
    unfolding sublist_def by blast
qed

text \<open>
  C6. Whatever the outbound call throws and whatever the device model, the call of
  \<open>generateBlueprint\<close> raises the one error with the fixed message; the value thrown
  goes to the console only, with the label of the log entry, and the result does not
  depend on it. (That the call was made says that the client was constructed.)
\<close>

theorem generateBlueprint_throws_fixed_error:
  assumes "endpoint (request_for dm) = Throws e"
  shows "fst (generateBlueprint (Client endpoint) dm w) =
           Inl (Error (lit ''Unable to reach PakNet AI services. Please verify your connection.''))
         \<and> console_error (snd (generateBlueprint (Client endpoint) dm w)) =
             console_error w @ [(lit ''Gemini API Error:'', e)]"
  using assms
  by (simp add: generateBlueprint_def generateContent_def console_error_write_def)

theorem generateBlueprint_throws_fixed_error_witness:
  "(\<lambda>p. Throws (lit ''401 UNAUTHENTICATED'')) (request_for (lit ''Cisco 2960'')) = Throws (lit ''401 UNAUTHENTICATED'')
   \<and> fst (generateBlueprint (Client (\<lambda>p. Throws (lit ''401 UNAUTHENTICATED''))) (lit ''Cisco 2960'')
             \<lparr>requests = [], console_error = []\<rparr>) =
       Inl (Error (lit ''Unable to reach PakNet AI services. Please verify your connection.''))
   \<and> fst (generateBlueprint (Client (\<lambda>p. Throws (lit ''timeout''))) (lit ''MikroTik hEX'')
             \<lparr>requests = [], console_error = []\<rparr>) =
       fst (generateBlueprint (Client (\<lambda>p. Throws (lit ''401 UNAUTHENTICATED''))) (lit ''Cisco 2960'')
             \<lparr>requests = [], console_error = []\<rparr>)
   \<and> console_error (snd (generateBlueprint (Client (\<lambda>p. Throws (lit ''timeout''))) (lit ''MikroTik hEX'')
             \<lparr>requests = [], console_error = []\<rparr>)) =
       [(lit ''Gemini API Error:'', lit ''timeout'')]"
  using generateBlueprint_throws_fixed_error
      [of "\<lambda>p. Throws (lit ''401 UNAUTHENTICATED'')" "lit ''Cisco 2960''" "lit ''401 UNAUTHENTICATED''"
          "\<lparr>requests = [], console_error = []\<rparr>"]
    generateBlueprint_throws_fixed_error
      [of "\<lambda>p. Throws (lit ''timeout'')" "lit ''MikroTik hEX''" "lit ''timeout''"
          "\<lparr>requests = [], console_error = []\<rparr>"]
  by simp

text \<open>
  C7. When the outbound call returns and the text of the response is empty (the empty
  string, or undefined), \<open>generateBlueprint\<close> returns the literal string
  "Failed to generate blueprint content." and raises nothing.
\<close>

theorem generateBlueprint_empty_text_fallback:
  assumes "endpoint (request_for dm) = Response None
           \<or> endpoint (request_for dm) = Response (Some [])"
  shows "fst (generateBlueprint (Client endpoint) dm w) =
           Inr (lit ''Failed to generate blueprint content.'')"
  using assms by (auto simp: generateBlueprint_def generateContent_def)

theorem generateBlueprint_empty_text_fallback_witness:
  "((\<lambda>p. Response (Some (lit ''''))) (request_for (lit ''Cisco 2960'')) = (Response None :: unit api_result)
    \<or> (\<lambda>p. Response (Some (lit ''''))) (request_for (lit ''Cisco 2960'')) = (Response (Some []) :: unit api_result))
   \<and> fst (generateBlueprint (Client (\<lambda>p. Response (Some (lit '''')) :: unit api_result)) (lit ''Cisco 2960'')
             \<lparr>requests = [], console_error = []\<rparr>) =
       Inr (lit ''Failed to generate blueprint content.'')"
  using generateBlueprint_empty_text_fallback
      [of "\<lambda>p. Response (Some (lit '''')) :: unit api_result" "lit ''Cisco 2960''"
          "\<lparr>requests = [], console_error = []\<rparr>"]
  by (simp add: lit_def)

text \<open>
  C8, as stated, fails where the construction of the client throws (as it does without an
  API key): the call for the device model "Cisco 2960" then ends with the value the
  constructor threw and no request has gone out.
\<close>

theorem generateBlueprint_no_request_without_client:
  "lit ''Cisco 2960'' \<noteq> []
   \<and> generateBlueprint (ConstructorThrows (lit ''An API Key must be set'')) (lit ''Cisco 2960'')
         \<lparr>requests = [], console_error = []\<rparr> =
       (Inl (Uncaught (lit ''An API Key must be set'')), \<lparr>requests = [], console_error = []\<rparr>)
   \<and> length (requests (snd (generateBlueprint (ConstructorThrows (lit ''An API Key must be set''))
         (lit ''Cisco 2960'') \<lparr>requests = [], console_error = []\<rparr>))) \<noteq> 1"
  by (simp add: generateBlueprint_def lit_def)

text \<open>
  C8, amended. One call of \<open>generateBlueprint\<close> for which the client was constructed
  sends exactly one request to the endpoint, whether the endpoint returns or throws, and
  the user prompt of that request contains the device model as a contiguous substring.
  This holds of every device model, the non-empty ones among them.
\<close>

theorem generateBlueprint_one_request_with_device:
  "requests (snd (generateBlueprint (Client endpoint) dm w)) = requests w @ [request_for dm]
   \<and> length (requests (snd (generateBlueprint (Client endpoint) dm w))) = Suc (length (requests w))
   \<and> sublist dm (contents (last (requests (snd (generateBlueprint (Client endpoint) dm w)))))"
  by (simp add: requests_generateBlueprint_Client sublist_contents_request_for)

section \<open>The renderer: proofs\<close>

lemmas eval_defs = lit_def MarkdownContent_def run_lines_def initial_def is_fence_def trim_def
  startsWith_def endsWith_def is_space_def is_line_terminator_def is_digit_def render_line_def
  match_ordered_def replace_ordered_def formattedText_def format_part_def match_bold_at_def
  slice_def substring_def

subsection \<open>The loop body, case by case\<close>

lemma step_fence_normal:
  "is_fence l \<Longrightarrow> \<not> isCodeBlock st \<Longrightarrow> step st (i, l) = st\<lparr>isCodeBlock := True\<rparr>"
  by simp

lemma step_fence_code:
  "is_fence l \<Longrightarrow> isCodeBlock st \<Longrightarrow>
   step st (i, l) =
     st\<lparr>elements := elements st @ [CodeBlock i (join (lit ''\<newline>'') (currentCodeBlock st))],
        currentCodeBlock := [], isCodeBlock := False\<rparr>"
  by simp

lemma step_code:
  "\<not> is_fence l \<Longrightarrow> isCodeBlock st \<Longrightarrow>
   step st (i, l) = st\<lparr>currentCodeBlock := currentCodeBlock st @ [l]\<rparr>"
  by simp

lemma step_normal:
  "\<not> is_fence l \<Longrightarrow> \<not> isCodeBlock st \<Longrightarrow>
   step st (i, l) = st\<lparr>elements := elements st @ [render_line i l]\<rparr>"
  by simp

lemma body_accumulates:
  "isCodeBlock st \<Longrightarrow> \<forall>l \<in> set body. \<not> is_fence l \<Longrightarrow>
   foldl step st (enumerate k body) = st\<lparr>currentCodeBlock := currentCodeBlock st @ body\<rparr>"
proof (induction body arbitrary: st k)
  case Nil
  then show ?case by simp
next
  case (Cons l body)
  then have "foldl step (step st (k, l)) (enumerate (Suc k) body) =
      (step st (k, l))\<lparr>currentCodeBlock := currentCodeBlock (step st (k, l)) @ body\<rparr>"
    by (intro Cons.IH) simp_all
  with Cons.prems show ?case by simp
qed

lemma step_keeps_buffer_empty:
  "(\<not> isCodeBlock st \<longrightarrow> currentCodeBlock st = []) \<Longrightarrow>
   \<not> isCodeBlock (step st p) \<longrightarrow> currentCodeBlock (step st p) = []"
  by (cases p) simp

lemma foldl_keeps_buffer_empty:
  "(\<not> isCodeBlock st \<longrightarrow> currentCodeBlock st = []) \<Longrightarrow>
   \<not> isCodeBlock (foldl step st ps) \<longrightarrow> currentCodeBlock (foldl step st ps) = []"
proof (induction ps arbitrary: st)
  case Nil
  then show ?case by simp
next
  case (Cons p ps)
  have "\<not> isCodeBlock (step st p) \<longrightarrow> currentCodeBlock (step st p) = []"
    using Cons.prems by (rule step_keeps_buffer_empty)
  then show ?case using Cons.IH by simp
qed

lemma run_lines_buffer_empty:
  "\<not> isCodeBlock (run_lines ls) \<Longrightarrow> currentCodeBlock (run_lines ls) = []"
  using foldl_keeps_buffer_empty [of initial "enumerate 0 ls"]
  by (simp add: run_lines_def initial_def)

lemma run_lines_append:
  "run_lines (pre @ ls) = foldl step (run_lines pre) (enumerate (length pre) ls)"
  by (simp add: run_lines_def enumerate_append_eq)

lemma open_block:
  assumes "\<not> isCodeBlock (run_lines pre)" and "is_fence f" and "\<forall>l \<in> set body. \<not> is_fence l"
  shows "run_lines (pre @ f # body) =
           (run_lines pre)\<lparr>currentCodeBlock := body, isCodeBlock := True\<rparr>"
proof -
  let ?st = "(run_lines pre)\<lparr>isCodeBlock := True\<rparr>"
  have empty: "currentCodeBlock (run_lines pre) = []"
    using assms(1) by (rule run_lines_buffer_empty)
  have "run_lines (pre @ f # body) = foldl step ?st (enumerate (Suc (length pre)) body)"
    using assms(1,2) by (simp add: run_lines_append)
  also have "\<dots> = ?st\<lparr>currentCodeBlock := currentCodeBlock ?st @ body\<rparr>"
    using assms(3) by (intro body_accumulates) simp_all
  finally show ?thesis using empty by simp
qed

lemma closed_block:
  assumes "\<not> isCodeBlock (run_lines pre)" and "is_fence f" and "\<forall>l \<in> set body. \<not> is_fence l"
    and "is_fence g"
  shows "run_lines (pre @ f # body @ [g]) =
           (run_lines pre)\<lparr>elements := elements (run_lines pre) @
              [CodeBlock (Suc (length pre + length body)) (join (lit ''\<newline>'') body)]\<rparr>"
proof -
  have "run_lines (pre @ f # body @ [g]) = run_lines ((pre @ f # body) @ [g])"
    by simp
  also have "\<dots> = step (run_lines (pre @ f # body)) (length (pre @ f # body), g)"
    unfolding run_lines_append [of "pre @ f # body"] by simp
  finally show ?thesis
    using assms(1,4) run_lines_buffer_empty [OF assms(1)]
    by (simp add: open_block [OF assms(1-3)])
qed

lemma isCodeBlock_no_fence:
  "\<forall>l \<in> set ls. \<not> is_fence l \<Longrightarrow>
   isCodeBlock (foldl step st (enumerate k ls)) = isCodeBlock st"
  by (induction ls arbitrary: st k) simp_all

lemma key_render_line: "key (render_line i l) = i"
  by (simp add: render_line_def)

lemma keys_step:
  "n \<in> set (elements (step st (i, l))) \<Longrightarrow> n \<in> set (elements st) \<or> key n = i"
  by (auto simp: key_render_line split: if_splits)

lemma keys_foldl:
  "n \<in> set (elements (foldl step st (enumerate k ls))) \<Longrightarrow>
   n \<in> set (elements st) \<or> (k \<le> key n \<and> key n < k + length ls)"
proof (induction ls arbitrary: st k)
  case Nil
  then show ?case by simp
next
  case (Cons l ls)
  from Cons.prems have "n \<in> set (elements (foldl step (step st (k, l)) (enumerate (Suc k) ls)))"
    by simp
  then have "n \<in> set (elements (step st (k, l))) \<or> (Suc k \<le> key n \<and> key n < Suc k + length ls)"
    by (rule Cons.IH)
  then show ?case
    using keys_step [of n st k l] by auto
qed

lemma keys_run_lines:
  "n \<in> set (elements (run_lines ls)) \<Longrightarrow> key n < length ls"
  using keys_foldl [of n initial 0 ls] by (simp add: run_lines_def initial_def)

lemma in_code_block_decomposition:
  assumes "isCodeBlock (run_lines ls)"
  shows "\<exists>pre f body. ls = pre @ f # body \<and> is_fence f \<and> (\<forall>l \<in> set body. \<not> is_fence l)
           \<and> \<not> isCodeBlock (run_lines pre)"
proof -
  have "\<exists>l \<in> set ls. is_fence l"
  proof (rule ccontr)
    assume "\<not> (\<exists>l \<in> set ls. is_fence l)"
    then have "isCodeBlock (run_lines ls) = isCodeBlock initial"
      unfolding run_lines_def by (intro isCodeBlock_no_fence) simp
    with assms show False by (simp add: initial_def)
  qed
  then obtain pre f body where split: "ls = pre @ f # body" "is_fence f"
      "\<forall>l \<in> set body. \<not> is_fence l"
    by (rule split_list_last_propE)
  have "isCodeBlock (run_lines ls) =
      isCodeBlock (foldl step (step (run_lines pre) (length pre, f)) (enumerate (Suc (length pre)) body))"
    by (simp add: split(1) run_lines_append)
  also have "\<dots> = isCodeBlock (step (run_lines pre) (length pre, f))"
    using split(3) by (rule isCodeBlock_no_fence)
  finally have "\<not> isCodeBlock (run_lines pre)"
    using assms split(2) by (auto split: if_splits)
  with split show ?thesis by blast
qed

subsection \<open>Fenced code blocks\<close>

text \<open>
  C2. A line whose trimmed content starts with three backticks toggles \<open>isCodeBlock\<close>
  and adds nothing of itself to the output: the opening one leaves the elements and the
  buffer as they are, the closing one pushes exactly one \<open>CodeBlock\<close> with the buffered
  lines joined by newlines and empties the buffer. Inside a block every other line,
  blank or not, is appended to the buffer as it is. For a whole input: a block opened
  outside a code block and closed by the next fence adds the one \<open>CodeBlock\<close> of its
  body lines to what the lines before it produced. The input of two lines between two
  fences gives the single \<open>CodeBlock\<close> of these two lines.
\<close>

theorem fence_toggles_and_flushes:
  "(is_fence line \<longrightarrow> isCodeBlock (step st (i, line)) = (\<not> isCodeBlock st))
   \<and> (is_fence line \<and> \<not> isCodeBlock st \<longrightarrow>
        elements (step st (i, line)) = elements st
        \<and> currentCodeBlock (step st (i, line)) = currentCodeBlock st)
   \<and> (is_fence line \<and> isCodeBlock st \<longrightarrow>
        elements (step st (i, line)) =
          elements st @ [CodeBlock i (join (lit ''\<newline>'') (currentCodeBlock st))]
        \<and> currentCodeBlock (step st (i, line)) = [])
   \<and> (\<not> is_fence line \<and> isCodeBlock st \<longrightarrow>
        step st (i, line) = st\<lparr>currentCodeBlock := currentCodeBlock st @ [line]\<rparr>)
   \<and> (\<not> isCodeBlock (run_lines pre) \<and> is_fence f \<and> (\<forall>l \<in> set body. \<not> is_fence l) \<and> is_fence g \<longrightarrow>
        run_lines (pre @ f # body @ [g]) =
          (run_lines pre)\<lparr>elements := elements (run_lines pre) @
             [CodeBlock (Suc (length pre + length body)) (join (lit ''\<newline>'') body)]\<rparr>)
   \<and> MarkdownContent (lit ''```\<newline>line1\<newline>line2\<newline>```'') =
        [CodeBlock 3 (join (lit ''\<newline>'') [lit ''line1'', lit ''line2''])]"
proof -
  have "MarkdownContent (lit ''```\<newline>line1\<newline>line2\<newline>```'') =
        [CodeBlock 3 (join (lit ''\<newline>'') [lit ''line1'', lit ''line2''])]"
    by (simp add: eval_defs)
  moreover have "\<not> isCodeBlock (run_lines pre) \<and> is_fence f \<and> (\<forall>l \<in> set body. \<not> is_fence l) \<and> is_fence g \<longrightarrow>
        run_lines (pre @ f # body @ [g]) =
          (run_lines pre)\<lparr>elements := elements (run_lines pre) @
             [CodeBlock (Suc (length pre + length body)) (join (lit ''\<newline>'') body)]\<rparr>"
    using closed_block by blast
  ultimately show ?thesis by simp
qed

theorem fence_toggles_and_flushes_witness:
  "is_fence (lit ''  ```bash'')
   \<and> step initial (0, lit ''  ```bash'') = initial\<lparr>isCodeBlock := True\<rparr>
   \<and> \<not> is_fence (lit '''')
   \<and> step \<lparr>elements = [], currentCodeBlock = [lit ''x''], isCodeBlock = True\<rparr> (2, lit '''') =
       \<lparr>elements = [], currentCodeBlock = [lit ''x'', lit ''''], isCodeBlock = True\<rparr>
   \<and> step \<lparr>elements = [], currentCodeBlock = [lit ''x'', lit ''''], isCodeBlock = True\<rparr> (3, lit ''  ```bash'') =
       \<lparr>elements = [CodeBlock 3 (lit ''x\<newline>'')], currentCodeBlock = [], isCodeBlock = False\<rparr>
   \<and> run_lines ([lit ''# T''] @ lit ''```'' # [lit ''x'', lit ''''] @ [lit ''```'']) =
       \<lparr>elements = [Heading 0 1 (lit ''T''), CodeBlock 4 (lit ''x\<newline>'')],
        currentCodeBlock = [], isCodeBlock = False\<rparr>"
proof -
  have fence: "is_fence (lit ''  ```bash'')" "is_fence (lit ''```'')"
    and plain: "\<not> is_fence (lit '''')" "\<not> is_fence (lit ''x'')" "\<not> is_fence (lit ''# T'')"
    by (simp_all add: eval_defs)
  have pre: "run_lines [lit ''# T''] = \<lparr>elements = [Heading 0 1 (lit ''T'')], currentCodeBlock = [], isCodeBlock = False\<rparr>"
    by (simp add: eval_defs)
  show ?thesis
    using fence plain pre
      fence_toggles_and_flushes [of "lit ''  ```bash''" initial 0 "[lit ''# T'']" "lit ''```''" "[lit ''x'', lit '''']" "lit ''```''"]
      fence_toggles_and_flushes [of "lit ''''" "\<lparr>elements = [], currentCodeBlock = [lit ''x''], isCodeBlock = True\<rparr>" 2 "[]" "[]" "[]" "[]"]
      fence_toggles_and_flushes [of "lit ''  ```bash''" "\<lparr>elements = [], currentCodeBlock = [lit ''x'', lit ''''], isCodeBlock = True\<rparr>" 3 "[]" "[]" "[]" "[]"]
    by (simp add: initial_def lit_def)
qed

text \<open>
  C3. When the input ends inside a code block, the lines split into the lines before
  the last opening fence, that fence, and the lines after it, none of them a fence; the
  lines after it are what the buffer holds at the end, and the output is what the lines
  before the fence produced: every element of it has the key of one of these lines, so
  neither the fence nor a buffered line has an element.
\<close>

theorem unterminated_block_dropped:
  assumes "isCodeBlock (run_lines (split_newline md))"
  shows "\<exists>pre f body.
           split_newline md = pre @ f # body \<and> is_fence f \<and> (\<forall>l \<in> set body. \<not> is_fence l)
           \<and> \<not> isCodeBlock (run_lines pre)
           \<and> currentCodeBlock (run_lines (split_newline md)) = body
           \<and> MarkdownContent md = elements (run_lines pre)
           \<and> (\<forall>n \<in> set (MarkdownContent md). key n < length pre)"
proof -
  from assms obtain pre f body where split: "split_newline md = pre @ f # body" "is_fence f"
      "\<forall>l \<in> set body. \<not> is_fence l" "\<not> isCodeBlock (run_lines pre)"
    using in_code_block_decomposition by blast
  then have final: "run_lines (split_newline md) =
      (run_lines pre)\<lparr>currentCodeBlock := body, isCodeBlock := True\<rparr>"
    by (simp add: open_block)
  then have out: "MarkdownContent md = elements (run_lines pre)"
    by (simp add: MarkdownContent_def)
  then have "\<forall>n \<in> set (MarkdownContent md). key n < length pre"
    by (simp add: keys_run_lines)
  with split final out show ?thesis by auto
qed

theorem unterminated_block_dropped_witness:
  "isCodeBlock (run_lines (split_newline (lit ''a\<newline>```\<newline>x\<newline>y'')))
   \<and> MarkdownContent (lit ''a\<newline>```\<newline>x\<newline>y'') = [Paragraph 0 [Plain (lit ''a'')]]
   \<and> (\<exists>pre f body.
           split_newline (lit ''a\<newline>```\<newline>x\<newline>y'') = pre @ f # body \<and> is_fence f \<and> (\<forall>l \<in> set body. \<not> is_fence l)
           \<and> \<not> isCodeBlock (run_lines pre)
           \<and> currentCodeBlock (run_lines (split_newline (lit ''a\<newline>```\<newline>x\<newline>y''))) = body
           \<and> MarkdownContent (lit ''a\<newline>```\<newline>x\<newline>y'') = elements (run_lines pre)
           \<and> (\<forall>n \<in> set (MarkdownContent (lit ''a\<newline>```\<newline>x\<newline>y'')). key n < length pre))"
proof -
  have open_at_end: "isCodeBlock (run_lines (split_newline (lit ''a\<newline>```\<newline>x\<newline>y'')))"
    by (simp add: eval_defs)
  have out: "MarkdownContent (lit ''a\<newline>```\<newline>x\<newline>y'') = [Paragraph 0 [Plain (lit ''a'')]]"
    by (simp add: eval_defs)
  from open_at_end out unterminated_block_dropped [OF open_at_end] show ?thesis
    by (intro conjI)
qed

subsection \<open>The empty input\<close>

text \<open>
  C10. The empty string splits into one empty line, and rendering it gives exactly one
  \<open>Blank\<close> element, not the empty sequence.
\<close>

theorem MarkdownContent_empty_string:
  "split_newline (lit '''') = [lit '''']
   \<and> MarkdownContent (lit '''') = [Blank 0]
   \<and> MarkdownContent (lit '''') \<noteq> []"
  by (simp add: eval_defs)

subsection \<open>Lines outside a code block\<close>

lemma heading_and_bullet_prefix_stripped:
  "render_line i (lit ''# '' @ t) = Heading i 1 t"
  "render_line i (lit ''## '' @ t) = Heading i 2 t"
  "render_line i (lit ''### '' @ t) = Heading i 3 t"
  "render_line i (lit ''- '' @ t) = ListItem i False t"
  "render_line i (lit ''* '' @ t) = ListItem i False t"
  by (simp_all add: render_line_def startsWith_def substring_def lit_def)

lemma digit_not_marker:
  "is_digit c \<Longrightarrow> c \<noteq> 0x23 \<and> c \<noteq> 0x2D \<and> c \<noteq> 0x2A \<and> c \<noteq> 0x2E \<and> \<not> is_space c"
  by (auto simp: is_digit_def is_space_def is_line_terminator_def word_le_nat_alt)

lemma digits_then:
  assumes "\<forall>c \<in> set ds. is_digit c" and "r = [] \<or> \<not> is_digit (hd r)"
  shows "takeWhile is_digit (ds @ r) = ds" and "dropWhile is_digit (ds @ r) = r"
  using assms by (cases r; simp add: takeWhile_append2 dropWhile_append2)+

lemma spaces_then:
  assumes "\<forall>c \<in> set ws. is_space c" and "r = [] \<or> \<not> is_space (hd r)"
  shows "takeWhile is_space (ws @ r) = ws" and "dropWhile is_space (ws @ r) = r"
  using assms by (cases r; simp add: takeWhile_append2 dropWhile_append2)+

lemma ordered_line_not_earlier_case:
  assumes "ds \<noteq> []" and "\<forall>c \<in> set ds. is_digit c"
  shows "\<not> startsWith (lit ''# '') (ds @ r)" "\<not> startsWith (lit ''## '') (ds @ r)"
    "\<not> startsWith (lit ''### '') (ds @ r)" "\<not> startsWith (lit ''- '') (ds @ r)"
    "\<not> startsWith (lit ''* '') (ds @ r)"
proof -
  from assms obtain d ds' where ds: "ds = d # ds'" and d: "is_digit d"
    by (cases ds) auto
  from digit_not_marker [OF d] show "\<not> startsWith (lit ''# '') (ds @ r)" "\<not> startsWith (lit ''## '') (ds @ r)"
    "\<not> startsWith (lit ''### '') (ds @ r)" "\<not> startsWith (lit ''- '') (ds @ r)"
    "\<not> startsWith (lit ''* '') (ds @ r)"
    by (simp_all add: ds startsWith_def lit_def)
qed

lemma ordered_line_rendered:
  assumes "ds \<noteq> []" and "\<forall>c \<in> set ds. is_digit c"
  shows "match_ordered (ds @ lit ''.'' @ r)"
    and "render_line i (ds @ lit ''.'' @ r) = ListItem i True (replace_ordered (ds @ lit ''.'' @ r))"
proof -
  have dot: "lit ''.'' @ r = [] \<or> \<not> is_digit (hd (lit ''.'' @ r))"
    by (simp add: lit_def is_digit_def)
  show m: "match_ordered (ds @ lit ''.'' @ r)"
    using assms(1) by (simp add: match_ordered_def digits_then [OF assms(2) dot])
      (simp add: startsWith_def lit_def)
  show "render_line i (ds @ lit ''.'' @ r) = ListItem i True (replace_ordered (ds @ lit ''.'' @ r))"
    using m ordered_line_not_earlier_case [OF assms] by (simp add: render_line_def)
qed

lemma replace_ordered_with_space:
  assumes "ds \<noteq> []" and "\<forall>c \<in> set ds. is_digit c" and "ws \<noteq> []" and "\<forall>c \<in> set ws. is_space c"
    and "t = [] \<or> \<not> is_space (hd t)"
  shows "replace_ordered (ds @ lit ''.'' @ ws @ t) = t"
proof -
  have dot: "lit ''.'' @ ws @ t = [] \<or> \<not> is_digit (hd (lit ''.'' @ ws @ t))"
    by (simp add: lit_def is_digit_def)
  show ?thesis
    using assms(1,3)
    by (simp add: replace_ordered_def Let_def digits_then [OF assms(2) dot] startsWith_def
        spaces_then [OF assms(4,5)])
       (simp add: lit_def spaces_then [OF assms(4,5)])
qed

lemma replace_ordered_without_space:
  assumes "ds \<noteq> []" and "\<forall>c \<in> set ds. is_digit c" and "t = [] \<or> \<not> is_space (hd t)"
  shows "replace_ordered (ds @ lit ''.'' @ t) = ds @ lit ''.'' @ t"
proof -
  have dot: "lit ''.'' @ t = [] \<or> \<not> is_digit (hd (lit ''.'' @ t))"
    by (simp add: lit_def is_digit_def)
  have "takeWhile is_space t = []"
    using assms(3) by (cases t) auto
  then show ?thesis
    by (simp add: replace_ordered_def Let_def digits_then [OF assms(2) dot])
       (simp add: lit_def)
qed

lemma heading_examples:
  "MarkdownContent (lit ''## Title'') = [Heading 0 2 (lit ''Title'')]"
  "MarkdownContent (lit ''### Sub'') = [Heading 0 3 (lit ''Sub'')]"
  "MarkdownContent (lit ''12.   Foo bar'') = [ListItem 0 True (lit ''Foo bar'')]"
  by (simp_all add: eval_defs)

text \<open>
  C4. The line "1.Foo" matches the test for an ordered list item, and the element it
  yields still carries the digits and the dot: the pattern that strips the prefix asks
  for white space after the dot, which the test does not. The same holds of "1." alone.
\<close>

theorem ordered_prefix_not_stripped:
  "match_ordered (lit ''1.Foo'')
   \<and> MarkdownContent (lit ''1.Foo'') = [ListItem 0 True (lit ''1.Foo'')]
   \<and> MarkdownContent (lit ''1.'') = [ListItem 0 True (lit ''1.'')]"
  by (simp add: eval_defs)

subsection \<open>Bold spans\<close>

lemma slice_2_minus_2:
  "2 \<le> length part \<Longrightarrow> slice 2 (- 2) part = take (length part - 4) (drop 2 part)"
proof -
  assume len: "2 \<le> length part"
  then have "nat (int (length part) - 2 - 2) = length part - 4"
    by linarith
  with len show ?thesis
    by (simp add: slice_def Let_def max_def min_def)
qed

lemma startsWith_length: "startsWith p s \<Longrightarrow> length p \<le> length s"
  unfolding startsWith_def by (metis length_take min.cobounded1)

lemma startsWith_stars_length: "startsWith (lit ''**'') part \<Longrightarrow> 2 \<le> length part"
  using startsWith_length [of "lit ''**''" part] by (simp add: lit_def)

lemma format_part_stars:
  assumes "startsWith (lit ''**'') part" and "endsWith (lit ''**'') part"
  shows "format_part (idx, part) = Bold idx (take (length part - 4) (drop 2 part))"
  using assms slice_2_minus_2 [OF startsWith_stars_length [OF assms(1)]]
  by (simp add: format_part_def)

lemma formattedText_nth:
  "idx < length (split_bold [] line) \<Longrightarrow>
   formattedText line ! idx = format_part (idx, split_bold [] line ! idx)"
  by (simp add: formattedText_def nth_enumerate_eq)

lemma concat_split_bold: "concat (split_bold pending s) = pending @ s"
proof (induction pending s rule: split_bold.induct)
  case (1 pending)
  then show ?case by simp
next
  case (2 pending c cs)
  show ?case
  proof (cases "match_bold_at (c # cs)")
    case None
    with 2 show ?thesis by simp
  next
    case (Some n)
    with 2 have "concat (split_bold [] (drop n (c # cs))) = drop n (c # cs)"
      by simp
    with Some show ?thesis
      by simp
  qed
qed

lemma lazy_until_stars_Some:
  "lazy_until_stars s = Some k \<Longrightarrow>
   startsWith (lit ''**'') (drop k s) \<and> (\<forall>c \<in> set (take k s). \<not> is_line_terminator c)
   \<and> (\<forall>j < k. \<not> startsWith (lit ''**'') (drop j s))"
proof (induction s arbitrary: k)
  case Nil
  then show ?case by simp
next
  case (Cons c cs)
  show ?case
  proof (cases "startsWith (lit ''**'') (c # cs)")
    case True
    with Cons.prems show ?thesis by simp
  next
    case False
    with Cons.prems obtain k' where k': "k = Suc k'" "lazy_until_stars cs = Some k'"
      "\<not> is_line_terminator c"
      by (auto split: if_splits)
    from Cons.IH [OF k'(2)] k'(1,3) False show ?thesis
      by (auto simp: less_Suc_eq_0_disj)
  qed
qed

lemma match_rendered_bold:
  assumes "match_bold_at s = Some n"
  shows "\<exists>inner. take n s = lit ''**'' @ inner @ lit ''**''
           \<and> (\<forall>c \<in> set inner. \<not> is_line_terminator c)
           \<and> format_part (idx, take n s) = Bold idx inner"
proof -
  from assms obtain k where k: "startsWith (lit ''**'') s" "lazy_until_stars (drop 2 s) = Some k"
      "n = k + 4"
    by (auto simp: match_bold_at_def split: if_splits)
  let ?inner = "take k (drop 2 s)"
  from lazy_until_stars_Some [OF k(2)]
  have close: "startsWith (lit ''**'') (drop (k + 2) s)"
    and inner: "\<forall>c \<in> set ?inner. \<not> is_line_terminator c"
    by (simp_all add: add.commute)
  have len: "k + 4 \<le> length s"
    using startsWith_length [OF close] by (simp add: lit_def)
  have "take (2 + (k + 2)) s = take 2 s @ take (k + 2) (drop 2 s)"
    by (rule take_add)
  moreover have "take (k + 2) (drop 2 s) = take k (drop 2 s) @ take 2 (drop k (drop 2 s))"
    by (rule take_add)
  moreover have "drop k (drop 2 s) = drop (k + 2) s"
    by (simp only: drop_drop)
  moreover have "n = 2 + (k + 2)"
    using k(3) by simp
  ultimately have "take n s = take 2 s @ take k (drop 2 s) @ take 2 (drop (k + 2) s)"
    by (simp only:)
  moreover have "take 2 s = lit ''**''" "take 2 (drop (k + 2) s) = lit ''**''"
    using k(1) close by (simp_all add: startsWith_def lit_def numeral_2_eq_2)
  ultimately have shape: "take n s = lit ''**'' @ ?inner @ lit ''**''"
    by (simp only:)
  have lenk: "length ?inner = k" using len by simp
  have "format_part (idx, lit ''**'' @ ?inner @ lit ''**'') = Bold idx ?inner"
    using lenk by (simp add: format_part_def startsWith_def endsWith_def slice_def lit_def Let_def)
  with shape inner show ?thesis by metis
qed

lemma bold_example:
  "MarkdownContent (lit ''Hello **world** now'') =
     [Paragraph 0 [Plain (lit ''Hello ''), Bold 1 (lit ''world''), Plain (lit '' now'')]]"
  by (simp add: eval_defs)

text \<open>
  C5. The line of two stars holds no pair of delimiters, and splitting it gives the line
  itself as its only part; the paragraph rendered for it is one empty bold span, so the two
  stars are neither passed through nor the delimiters of any text. In the same way the two
  stars left behind the match in "**a****" become an empty bold span.
\<close>

theorem unmatched_stars_lost:
  "split_bold [] (lit ''**'') = [lit ''**'']
   \<and> MarkdownContent (lit ''**'') = [Paragraph 0 [Bold 0 (lit '''')]]
   \<and> split_bold [] (lit ''**a****'') = [lit '''', lit ''**a**'', lit ''**'']
   \<and> MarkdownContent (lit ''**a****'') = [Paragraph 0 [Plain (lit ''''), Bold 1 (lit ''a''), Bold 2 (lit '''')]]"
  by (simp add: eval_defs)

text \<open>
  C9. A part of a paragraph line that starts and ends with two stars is emitted as a
  bold span holding the part without its first two and last two characters (nothing when
  the part has fewer than four), whether or not the pattern matched it. A line that is
  just two or three stars is not matched by the pattern, and is rendered as a paragraph of
  one empty bold span.
\<close>

theorem unmatched_stars_become_bold:
  "(startsWith (lit ''**'') part \<and> endsWith (lit ''**'') part \<longrightarrow>
      format_part (idx, part) = Bold idx (take (length part - 4) (drop 2 part)))
   \<and> (idx < length (split_bold [] line)
       \<and> startsWith (lit ''**'') (split_bold [] line ! idx)
       \<and> endsWith (lit ''**'') (split_bold [] line ! idx) \<longrightarrow>
      formattedText line ! idx =
        Bold idx (take (length (split_bold [] line ! idx) - 4) (drop 2 (split_bold [] line ! idx))))
   \<and> match_bold_at (lit ''**'') = None
   \<and> match_bold_at (lit ''***'') = None
   \<and> render_line i (lit ''**'') = Paragraph i [Bold 0 (lit '''')]
   \<and> render_line i (lit ''***'') = Paragraph i [Bold 0 (lit '''')]"
proof -
  have "match_bold_at (lit ''**'') = None" "match_bold_at (lit ''***'') = None"
    by (simp_all add: eval_defs)
  moreover have "render_line i (lit ''**'') = Paragraph i [Bold 0 (lit '''')]"
    by (simp add: eval_defs)
  moreover have "render_line i (lit ''***'') = Paragraph i [Bold 0 (lit '''')]"
    by (simp add: eval_defs)
  ultimately show ?thesis
    by (simp add: format_part_stars formattedText_nth)
qed

theorem unmatched_stars_become_bold_witness:
  "startsWith (lit ''**'') (lit ''***'') \<and> endsWith (lit ''**'') (lit ''***'')
   \<and> format_part (2, lit ''***'') = Bold 2 (lit '''')
   \<and> (2::nat) < length (split_bold [] (lit ''**a****''))
   \<and> split_bold [] (lit ''**a****'') ! 2 = lit ''**''
   \<and> formattedText (lit ''**a****'') ! 2 = Bold 2 (lit '''')"
proof -
  have parts: "split_bold [] (lit ''**a****'') = [lit '''', lit ''**a**'', lit ''**'']"
    by (simp add: eval_defs)
  have stars: "startsWith (lit ''**'') (lit ''***'')" "endsWith (lit ''**'') (lit ''***'')"
    "startsWith (lit ''**'') (lit ''**'')" "endsWith (lit ''**'') (lit ''**'')"
    by (simp_all add: eval_defs)
  show ?thesis
    using parts stars unmatched_stars_become_bold [of "lit ''***''" 2 "lit ''**a****''"]
    by (simp add: lit_def)
qed

end
